theory Spec2Isabelle
  imports Main
begin

section \<open>Values, callbacks and the built-in Set\<close>

text \<open>
  The elements of a set are JavaScript values. The model keeps the primitive kinds that
  the set and its callbacks can tell apart, and objects by their identity. Numbers are the
  integer-valued ones and \<open>NaN\<close>. A \<open>Set\<close> compares its elements with SameValueZero, which
  on these values is equality of the constructors: \<open>NaN\<close> is equal to itself, objects are
  equal when they are the same object.
\<close>

datatype val =
    Undefined
  | Null
  | Bool bool
  | Num int
  | NaN
  | Str string
  | Obj nat

text \<open>\<open>truthy v\<close> is the outcome of a JavaScript condition on \<open>v\<close> (ToBoolean).\<close>

fun truthy :: "val \<Rightarrow> bool" where
  "truthy Undefined = False"
| "truthy Null = False"
| "truthy (Bool b) = b"
| "truthy (Num n) = (n \<noteq> 0)"
| "truthy NaN = False"
| "truthy (Str s) = (s \<noteq> [])"
| "truthy (Obj a) = True"

text \<open>
  The state of a \<open>Set\<close> object is the sequence of its elements in insertion order, which is
  the order of iteration. A set never holds an element twice: every state the code builds
  is a list without duplicates (\<open>distinct\<close>).
\<close>

type_synonym sset = "val list"

text \<open>\<open>Set.prototype.has\<close>, \<open>Set.prototype.add\<close> and the \<open>size\<close> getter.\<close>

definition has :: "sset \<Rightarrow> val \<Rightarrow> bool" where
  "has this itm = (itm \<in> set this)"

definition add :: "sset \<Rightarrow> val \<Rightarrow> sset" where
  "add this itm = (if has this itm then this else this @ [itm])"

definition size_s :: "sset \<Rightarrow> nat" where
  "size_s this = length this"

text \<open>
  \<open>new SuperSet(iterable)\<close>: the inherited constructor starts from the empty set and adds
  the items of the iterable one by one. An iterable is given by the finite sequence of
  items it yields; a generator is the list of what it yields.
\<close>

fun add_each :: "sset \<Rightarrow> val list \<Rightarrow> sset" where
  "add_each this [] = this"
| "add_each this (itm # rest) = add_each (add this itm) rest"

definition SuperSet :: "val list \<Rightarrow> sset" where
  "SuperSet iterable = add_each [] iterable"

text \<open>
  A callback is a function of its receiver (\<open>this\<close>) and of the three arguments the
  methods pass: the item twice and the set. \<open>func.bind(thisArg)\<close> fixes the receiver.
  Callbacks are pure: they return a value and change nothing.
\<close>

type_synonym 't callback = "'t \<Rightarrow> val \<Rightarrow> val \<Rightarrow> sset \<Rightarrow> val"

definition bind :: "'t callback \<Rightarrow> 't \<Rightarrow> (val \<Rightarrow> val \<Rightarrow> sset \<Rightarrow> val)" where
  "bind func thisArg = func thisArg"

text \<open>
  \<open>otherSetObj.has\<close> taken as a callback: the method with its receiver still open. It
  reads its first argument only and returns a boolean.
\<close>

definition has_method :: "sset callback" where
  "has_method this itm itm2 setObj = Bool (has this itm)"

section \<open>reduce\<close>

datatype error = TypeError string

text \<open>
  The reducing function takes the accumulator, the item twice and the set.
\<close>

type_synonym reducer = "val \<Rightarrow> val \<Rightarrow> val \<Rightarrow> sset \<Rightarrow> val"

text \<open>
  The \<open>for\<close> loop of \<open>reduce\<close> over the rest of the iterator. Beside \<open>result\<close> it keeps a
  log of the invocations of \<open>func\<close>, each with the accumulator and the item it was given;
  the log is a ghost of the model and is not returned by \<open>reduce\<close>.
\<close>

type_synonym call = "val \<times> val"

fun reduce_loop :: "reducer \<Rightarrow> sset \<Rightarrow> val list \<Rightarrow> val \<times> call list \<Rightarrow> val \<times> call list" where
  "reduce_loop func this [] (result, calls) = (result, calls)"
| "reduce_loop func this (itm # rest) (result, calls) =
     reduce_loop func this rest (func result itm itm this, calls @ [(result, itm)])"

text \<open>
  \<open>reduce_run this func more\<close> is the call \<open>this.reduce(func, ...more)\<close>: \<open>more\<close> holds the
  arguments after \<open>func\<close>, so \<open>arguments.length\<close> is \<open>1 + length more\<close> and \<open>initialValue\<close> is
  the first of \<open>more\<close>, or \<open>undefined\<close> when there is none (the reducing function itself is
  always passed). \<open>iterator.next().value\<close> is the first element and leaves the iterator at
  the second (\<open>undefined\<close> on an empty set).
\<close>

definition reduce_run :: "sset \<Rightarrow> reducer \<Rightarrow> val list \<Rightarrow> error + (val \<times> call list)" where
  "reduce_run this func more =
     (let arguments_length = 1 + length more;
          initialValue = (case more of [] \<Rightarrow> Undefined | v # _ \<Rightarrow> v)
      in if arguments_length < 2 \<and> size_s this = 0
         then Inl (TypeError ''An initial value is required when using an empty set.'')
         else
           let (result, iterator) =
                 (if arguments_length = 1
                  then (case this of [] \<Rightarrow> (Undefined, []) | x # xs \<Rightarrow> (x, xs))
                  else (initialValue, this))
           in Inr (reduce_loop func this iterator (result, [])))"

definition reduce :: "sset \<Rightarrow> reducer \<Rightarrow> val list \<Rightarrow> error + val" where
  "reduce this func more = map_sum id fst (reduce_run this func more)"

text \<open>The log of the invocations made by a call of \<open>reduce\<close>; empty when the call threw.\<close>

definition reduce_calls :: "sset \<Rightarrow> reducer \<Rightarrow> val list \<Rightarrow> call list" where
  "reduce_calls this func more =
     (case reduce_run this func more of Inl e \<Rightarrow> [] | Inr (result, calls) \<Rightarrow> calls)"

section \<open>The generators\<close>

text \<open>
  A generator is modelled by the list of the items it yields. None of the sets involved
  changes while a generator runs, so the lazy stream and the list are the same sequence.
\<close>

definition mapGen :: "sset \<Rightarrow> (val \<Rightarrow> val \<Rightarrow> sset \<Rightarrow> val) \<Rightarrow> val list" where
  "mapGen setObj transform = map (\<lambda>itm. transform itm itm setObj) setObj"

definition filterGen :: "sset \<Rightarrow> (val \<Rightarrow> val \<Rightarrow> sset \<Rightarrow> val) \<Rightarrow> val list" where
  "filterGen setObj filter_f = filter (\<lambda>itm. truthy (filter_f itm itm setObj)) setObj"

text \<open>
  \<open>subtractGen\<close> iterates its first argument, which may be a set or another generator,
  and asks its second argument, a set, for membership.
\<close>

definition subtractGen :: "val list \<Rightarrow> sset \<Rightarrow> val list" where
  "subtractGen set1 set2 = filter (\<lambda>itm. \<not> has set2 itm) set1"

definition unionGen :: "val list \<Rightarrow> val list \<Rightarrow> val list" where
  "unionGen set1 set2 = set1 @ set2"

definition xorGen :: "sset \<Rightarrow> sset \<Rightarrow> val list" where
  "xorGen set1 set2 = unionGen (subtractGen set1 set2) (subtractGen set2 set1)"

section \<open>The methods of SuperSet\<close>

text \<open>
  Each method is a function of the state of its receiver \<open>this\<close> (and of the state of the
  set it is given). A method that returns \<open>new SuperSet(...)\<close> is the state of that new
  set; the objects themselves, with their identity, are in the section on the object store.
\<close>

definition map_s :: "sset \<Rightarrow> 't callback \<Rightarrow> 't \<Rightarrow> sset" where
  "map_s this func thisArg = SuperSet (mapGen this (bind func thisArg))"

definition filter_s :: "sset \<Rightarrow> 't callback \<Rightarrow> 't \<Rightarrow> sset" where
  "filter_s this func thisArg = SuperSet (filterGen this (bind func thisArg))"

definition union_s :: "sset \<Rightarrow> sset \<Rightarrow> sset" where
  "union_s this otherSetObj = SuperSet (unionGen this otherSetObj)"

fun every_loop :: "(val \<Rightarrow> val \<Rightarrow> sset \<Rightarrow> val) \<Rightarrow> sset \<Rightarrow> val list \<Rightarrow> bool" where
  "every_loop check this [] = True"
| "every_loop check this (itm # rest) =
     (if \<not> truthy (check itm itm this) then False else every_loop check this rest)"

definition every :: "sset \<Rightarrow> 't callback \<Rightarrow> 't \<Rightarrow> bool" where
  "every this func thisArg = (let check = bind func thisArg in every_loop check this this)"

text \<open>\<open>find\<close> falls off its end when no item passes, and so returns \<open>undefined\<close>.\<close>

fun find_loop :: "(val \<Rightarrow> val \<Rightarrow> sset \<Rightarrow> val) \<Rightarrow> sset \<Rightarrow> val list \<Rightarrow> val" where
  "find_loop check this [] = Undefined"
| "find_loop check this (itm # rest) =
     (if truthy (check itm itm this) then itm else find_loop check this rest)"

definition find_s :: "sset \<Rightarrow> 't callback \<Rightarrow> 't \<Rightarrow> val" where
  "find_s this func thisArg = (let check = bind func thisArg in find_loop check this this)"

text \<open>
  The getter \<open>first\<close>: a fresh iterator is asked once, the set is not changed. (\<open>join\<close>
  needs the conversion of values to strings and is left out of the model.)
\<close>

definition first :: "sset \<Rightarrow> val" where
  "first this = (case this of [] \<Rightarrow> Undefined | x # _ \<Rightarrow> x)"

fun some_loop :: "(val \<Rightarrow> val \<Rightarrow> sset \<Rightarrow> val) \<Rightarrow> sset \<Rightarrow> val list \<Rightarrow> bool" where
  "some_loop check this [] = False"
| "some_loop check this (itm # rest) =
     (if truthy (check itm itm this) then True else some_loop check this rest)"

definition some :: "sset \<Rightarrow> 't callback \<Rightarrow> 't \<Rightarrow> bool" where
  "some this func thisArg = (let check = bind func thisArg in some_loop check this this)"

definition isSubsetOf :: "sset \<Rightarrow> sset \<Rightarrow> bool" where
  "isSubsetOf this otherSetObj = every this has_method otherSetObj"

definition equals :: "sset \<Rightarrow> sset \<Rightarrow> bool" where
  "equals this otherSetObj = (size_s this = size_s otherSetObj \<and> isSubsetOf this otherSetObj)"

definition intersect :: "sset \<Rightarrow> sset \<Rightarrow> sset" where
  "intersect this otherSetObj = filter_s this has_method otherSetObj"

definition subtract :: "sset \<Rightarrow> sset \<Rightarrow> sset" where
  "subtract this otherSetObj = SuperSet (subtractGen this otherSetObj)"

text \<open>
  \<open>update\<close> adds the items of the iterable to the receiver; the result is the new state of
  the receiver. When the iterable is the receiver itself, every item is already there and
  no \<open>add\<close> changes the set, so the live iteration sees the same items.
\<close>

definition update :: "sset \<Rightarrow> val list \<Rightarrow> sset" where
  "update this iterable = add_each this iterable"

definition xor_s :: "sset \<Rightarrow> sset \<Rightarrow> sset" where
  "xor_s this otherSetObj = SuperSet (xorGen this otherSetObj)"

section \<open>The object store\<close>

text \<open>
  Set objects live in a store: a reference is an index into the list of the states of the
  objects created so far, \<open>new\<close> appends a state and returns its index. A reference is
  live in a store when it is below the length of the store. A method that returns a set
  returns a reference together with the store after the call.
\<close>

type_synonym ref = nat
type_synonym store = "sset list"

definition new_object :: "store \<Rightarrow> sset \<Rightarrow> ref \<times> store" where
  "new_object h s = (length h, h @ [s])"

definition new_SuperSet :: "store \<Rightarrow> val list \<Rightarrow> ref \<times> store" where
  "new_SuperSet h iterable = new_object h (SuperSet iterable)"

definition map_obj :: "store \<Rightarrow> ref \<Rightarrow> 't callback \<Rightarrow> 't \<Rightarrow> ref \<times> store" where
  "map_obj h this func thisArg = new_object h (map_s (h ! this) func thisArg)"

definition filter_obj :: "store \<Rightarrow> ref \<Rightarrow> 't callback \<Rightarrow> 't \<Rightarrow> ref \<times> store" where
  "filter_obj h this func thisArg = new_object h (filter_s (h ! this) func thisArg)"

definition union_obj :: "store \<Rightarrow> ref \<Rightarrow> ref \<Rightarrow> ref \<times> store" where
  "union_obj h this otherSetObj = new_object h (union_s (h ! this) (h ! otherSetObj))"

definition intersect_obj :: "store \<Rightarrow> ref \<Rightarrow> ref \<Rightarrow> ref \<times> store" where
  "intersect_obj h this otherSetObj = new_object h (intersect (h ! this) (h ! otherSetObj))"

definition subtract_obj :: "store \<Rightarrow> ref \<Rightarrow> ref \<Rightarrow> ref \<times> store" where
  "subtract_obj h this otherSetObj = new_object h (subtract (h ! this) (h ! otherSetObj))"

definition xor_obj :: "store \<Rightarrow> ref \<Rightarrow> ref \<Rightarrow> ref \<times> store" where
  "xor_obj h this otherSetObj = new_object h (xor_s (h ! this) (h ! otherSetObj))"

text \<open>\<open>update\<close> writes the new state at the receiver's reference and returns \<open>this\<close>.\<close>

definition update_obj :: "store \<Rightarrow> ref \<Rightarrow> val list \<Rightarrow> ref \<times> store" where
  "update_obj h this iterable = (this, h[this := update (h ! this) iterable])"

definition equals_obj :: "store \<Rightarrow> ref \<Rightarrow> ref \<Rightarrow> bool" where
  "equals_obj h this otherSetObj = equals (h ! this) (h ! otherSetObj)"

text \<open>
  \<open>returns_new h operands res\<close>: the result \<open>res\<close> of a call made in store \<open>h\<close> is a
  reference to an object that did not exist in \<open>h\<close> and is none of the operands, and the
  call left the objects of \<open>h\<close>, the operands among them, in the state they had.
\<close>

definition returns_new :: "store \<Rightarrow> ref list \<Rightarrow> ref \<times> store \<Rightarrow> bool" where
  "returns_new h operands res =
     (case res of (r, h') \<Rightarrow>
        \<not> r < length h \<and> r < length h' \<and> r \<notin> set operands
        \<and> take (length h) h' = h \<and> list_all (\<lambda>a. h' ! a = h ! a) operands)"

section \<open>Facts about the built-in Set and the iterations\<close>

lemma set_add_each: "set (add_each s xs) = set s \<union> set xs"
  by (induction xs arbitrary: s) (auto simp: add_def has_def)

lemma distinct_add_each: "distinct s \<Longrightarrow> distinct (add_each s xs)"
  by (induction xs arbitrary: s) (auto simp: add_def has_def)

lemma set_SuperSet: "set (SuperSet xs) = set xs"
  by (simp add: SuperSet_def set_add_each)

lemma distinct_SuperSet: "distinct (SuperSet xs)"
  by (simp add: SuperSet_def distinct_add_each)

lemma size_s_card: "distinct s \<Longrightarrow> size_s s = card (set s)"
  by (simp add: size_s_def distinct_card)

lemma size_SuperSet: "size_s (SuperSet xs) = card (set xs)"
  by (simp add: size_s_card distinct_SuperSet set_SuperSet)

lemma every_loop_iff: "every_loop check this xs = (\<forall>x\<in>set xs. truthy (check x x this))"
  by (induction xs) auto

lemma some_loop_iff: "some_loop check this xs = (\<exists>x\<in>set xs. truthy (check x x this))"
  by (induction xs) auto

lemma isSubsetOf_iff: "isSubsetOf a b = (set a \<subseteq> set b)"
  by (auto simp: isSubsetOf_def every_def bind_def every_loop_iff has_method_def has_def)

lemma equals_iff: "distinct a \<Longrightarrow> distinct b \<Longrightarrow> equals a b = (set a = set b)"
proof -
  assume d: "distinct a" "distinct b"
  have "card (set a) = card (set b) \<and> set a \<subseteq> set b \<longleftrightarrow> set a = set b"
    using card_subset_eq [of "set b" "set a"] by auto
  with d show ?thesis
    by (simp add: equals_def isSubsetOf_iff size_s_card)
qed

lemma set_union_s: "set (union_s a b) = set a \<union> set b"
  by (simp add: union_s_def unionGen_def set_SuperSet)

lemma set_subtract: "set (subtract a b) = set a - set b"
  by (auto simp: subtract_def subtractGen_def set_SuperSet has_def)

lemma set_intersect: "set (intersect a b) = set a \<inter> set b"
  by (auto simp: intersect_def filter_s_def filterGen_def bind_def has_method_def has_def
      set_SuperSet)

lemma set_xor_s: "set (xor_s a b) = (set a - set b) \<union> (set b - set a)"
  by (auto simp: xor_s_def xorGen_def unionGen_def subtractGen_def set_SuperSet has_def)

lemma reduce_loop_result:
  "fst (reduce_loop func this xs (r, calls)) = foldl (\<lambda>acc itm. func acc itm itm this) r xs"
  by (induction xs arbitrary: r calls) auto

lemma reduce_loop_items:
  "map snd (snd (reduce_loop func this xs (r, calls))) = map snd calls @ xs"
  by (induction xs arbitrary: r calls) auto

lemma reduce_loop_hd:
  "hd (snd (reduce_loop func this (x # xs) (r, []))) = (r, x)"
proof -
  have "\<And>r calls. calls \<noteq> [] \<Longrightarrow>
      hd (snd (reduce_loop func this xs (r, calls))) = hd calls"
    by (induction xs) auto
  then show ?thesis
    by simp
qed

lemma new_object_returns_new:
  "list_all (\<lambda>a. a < length h) operands \<Longrightarrow> returns_new h operands (new_object h s)"
  by (auto simp: returns_new_def new_object_def list_all_iff nth_append)

section \<open>Properties\<close>

text \<open>
  C1. On an empty set, \<open>reduce(f)\<close> without an initial value fails: it throws the
  \<open>TypeError\<close> that asks for an initial value (the error the specification calls
  InvalidOperation). With an initial value \<open>v\<close> it does not fail and returns \<open>v\<close>; with
  \<open>0\<close> it returns \<open>0\<close>.
\<close>

theorem reduce_empty:
  "reduce [] f [] = Inl (TypeError ''An initial value is required when using an empty set.'')
   \<and> reduce [] f [v] = Inr v
   \<and> reduce [] f [Num 0] = Inr (Num 0)"
  by (simp add: reduce_def reduce_run_def size_s_def)

text \<open>
  C2. \<open>reduce\<close> tells an omitted initial value from one passed as \<open>undefined\<close>. On a
  non-empty set \<open>x # xs\<close>, \<open>reduce(f)\<close> starts from the first element \<open>x\<close> and invokes \<open>f\<close>
  once for each of the remaining elements \<open>xs\<close>, in iteration order (the first invocation
  gets \<open>x\<close> and the second element). \<open>reduce(f, undefined)\<close> starts from \<open>undefined\<close> and
  invokes \<open>f\<close> once for each element, the first included, in iteration order.
\<close>

theorem reduce_omitted_vs_undefined:
  "reduce (x # xs) f [] = Inr (foldl (\<lambda>acc itm. f acc itm itm (x # xs)) x xs)
   \<and> map snd (reduce_calls (x # xs) f []) = xs
   \<and> hd (reduce_calls (x # y # ys) f []) = (x, y)
   \<and> reduce (x # xs) f [Undefined]
       = Inr (foldl (\<lambda>acc itm. f acc itm itm (x # xs)) Undefined (x # xs))
   \<and> map snd (reduce_calls (x # xs) f [Undefined]) = x # xs
   \<and> hd (reduce_calls (x # xs) f [Undefined]) = (Undefined, x)"
proof -
  let ?s = "x # xs"
  obtain r1 c1 where run1: "reduce_loop f ?s xs (x, []) = (r1, c1)"
    by (cases "reduce_loop f ?s xs (x, [])")
  obtain r2 c2 where run2: "reduce_loop f ?s ?s (Undefined, []) = (r2, c2)"
    by (cases "reduce_loop f ?s ?s (Undefined, [])")
  have r1: "r1 = foldl (\<lambda>acc itm. f acc itm itm ?s) x xs"
    using reduce_loop_result [of f ?s xs x "[]"] run1 by simp
  have c1: "map snd c1 = xs"
    using reduce_loop_items [of f ?s xs x "[]"] run1 by simp
  have r2: "r2 = foldl (\<lambda>acc itm. f acc itm itm ?s) Undefined ?s"
    using reduce_loop_result [of f ?s ?s Undefined "[]"] run2 by simp
  have c2: "map snd c2 = ?s"
    using reduce_loop_items [of f ?s ?s Undefined "[]"] run2 by simp
  have h2: "hd c2 = (Undefined, x)"
    using reduce_loop_hd [of f ?s x xs Undefined] run2 by simp
  have "reduce_calls (x # y # ys) f [] = snd (reduce_loop f (x # y # ys) (y # ys) (x, []))"
    by (simp add: reduce_calls_def reduce_run_def size_s_def split: prod.splits)
  then have h1: "hd (reduce_calls (x # y # ys) f []) = (x, y)"
    by (simp only: reduce_loop_hd)
  have a: "reduce ?s f [] = Inr r1" "reduce_calls ?s f [] = c1"
    using run1 by (simp_all add: reduce_def reduce_calls_def reduce_run_def size_s_def)
  have b: "reduce ?s f [Undefined] = Inr r2" "reduce_calls ?s f [Undefined] = c2"
    using run2 by (simp_all add: reduce_def reduce_calls_def reduce_run_def size_s_def)
  show ?thesis
    using a b r1 c1 r2 c2 h1 h2 by simp
qed

text \<open>
  C3. For sets \<open>A\<close> and \<open>B\<close> (states without duplicates), \<open>A.equals(B)\<close> holds exactly when \<open>A.isSubsetOf(B)\<close> and
  \<open>B.isSubsetOf(A)\<close> both hold; and exactly when the sizes are the same and \<open>A\<close> is a subset
  of \<open>B\<close>.
\<close>

theorem equals_iff_mutual_subset:
  assumes "distinct A" and "distinct B"
  shows "(equals A B \<longleftrightarrow> isSubsetOf A B \<and> isSubsetOf B A)
       \<and> (equals A B \<longleftrightarrow> size_s A = size_s B \<and> isSubsetOf A B)"
proof
  show "equals A B \<longleftrightarrow> isSubsetOf A B \<and> isSubsetOf B A"
    using assms by (auto simp: equals_iff isSubsetOf_iff)
  show "equals A B \<longleftrightarrow> size_s A = size_s B \<and> isSubsetOf A B"
    by (simp add: equals_def)
qed

theorem equals_iff_mutual_subset_witness:
  "distinct [Num 1, Str ''a''] \<and> distinct [Str ''a'', Num 1]
   \<and> equals [Num 1, Str ''a''] [Str ''a'', Num 1]
   \<and> isSubsetOf [Num 1, Str ''a''] [Str ''a'', Num 1]
   \<and> isSubsetOf [Str ''a'', Num 1] [Num 1, Str ''a'']
   \<and> \<not> equals [Num 1, Str ''a''] [Num 1, Num 2]
   \<and> \<not> isSubsetOf [Num 1, Str ''a''] [Num 1, Num 2]"
proof -
  have d: "distinct [Num 1, Str ''a'']" "distinct [Str ''a'', Num 1]" "distinct [Num 1, Num 2]"
    by simp_all
  have s: "isSubsetOf [Num 1, Str ''a''] [Str ''a'', Num 1]"
       "isSubsetOf [Str ''a'', Num 1] [Num 1, Str ''a'']"
       "\<not> isSubsetOf [Num 1, Str ''a''] [Num 1, Num 2]"
    by (simp_all add: isSubsetOf_def every_def bind_def has_method_def has_def)
  show ?thesis
    using d s equals_iff_mutual_subset [OF d(1) d(2)] equals_iff_mutual_subset [OF d(1) d(3)]
    by simp
qed

text \<open>
  C4. Partition of \<open>A\<close>: for sets \<open>A\<close> (a state without duplicates) and \<open>B\<close>,
  \<open>A.subtract(B).union(A.intersect(B)).equals(A)\<close> is true.
\<close>

theorem subtract_intersect_partition:
  assumes "distinct A"
  shows "equals (union_s (subtract A B) (intersect A B)) A"
proof -
  have "distinct (union_s (subtract A B) (intersect A B))"
    by (simp add: union_s_def distinct_SuperSet)
  moreover have "set (union_s (subtract A B) (intersect A B)) = set A"
    by (auto simp: set_union_s set_subtract set_intersect)
  ultimately show ?thesis
    using assms by (simp add: equals_iff)
qed

theorem subtract_intersect_partition_witness:
  "distinct [Num 1, Num 2, Num 3]
   \<and> equals (union_s (subtract [Num 1, Num 2, Num 3] [Num 2, Num 5])
                      (intersect [Num 1, Num 2, Num 3] [Num 2, Num 5]))
             [Num 1, Num 2, Num 3]"
proof -
  have d: "distinct [Num 1, Num 2, Num 3]"
    by simp
  show ?thesis
    using d subtract_intersect_partition [OF d, of "[Num 2, Num 5]"] by simp
qed

text \<open>
  C5. For sets \<open>A\<close> and \<open>B\<close>, \<open>A.xor(B).equals(A.subtract(B).union(B.subtract(A)))\<close> is true,
  and \<open>A.xor(B)\<close> has exactly the elements that are in exactly one of \<open>A\<close> and \<open>B\<close>.
\<close>

theorem xor_is_symmetric_difference:
  "equals (xor_s A B) (union_s (subtract A B) (subtract B A))
   \<and> (\<forall>x. has (xor_s A B) x = (has A x \<noteq> has B x))"
proof
  have "distinct (xor_s A B)" "distinct (union_s (subtract A B) (subtract B A))"
    by (simp_all add: xor_s_def union_s_def distinct_SuperSet)
  moreover have "set (xor_s A B) = set (union_s (subtract A B) (subtract B A))"
    by (simp add: set_xor_s set_union_s set_subtract)
  ultimately show "equals (xor_s A B) (union_s (subtract A B) (subtract B A))"
    by (simp add: equals_iff)
  show "\<forall>x. has (xor_s A B) x = (has A x \<noteq> has B x)"
    by (auto simp: has_def set_xor_s)
qed

text \<open>
  C6. For sets \<open>A\<close> and \<open>B\<close> (states without duplicates), the size of \<open>A.union(B)\<close> is at most the size of \<open>A\<close> plus the
  size of \<open>B\<close>, and it is equal to that sum exactly when \<open>A\<close> and \<open>B\<close> share no element.
\<close>

theorem union_size:
  assumes "distinct A" and "distinct B"
  shows "size_s (union_s A B) \<le> size_s A + size_s B
       \<and> (size_s (union_s A B) = size_s A + size_s B \<longleftrightarrow> \<not> (\<exists>x. has A x \<and> has B x))"
proof -
  have u: "size_s (union_s A B) = card (set A \<union> set B)"
    by (simp add: union_s_def unionGen_def size_SuperSet)
  have ab: "size_s A = card (set A)" "size_s B = card (set B)"
    using assms by (simp_all add: size_s_card)
  have sum: "card (set A) + card (set B) = card (set A \<union> set B) + card (set A \<inter> set B)"
    by (rule card_Un_Int) simp_all
  have "card (set A \<inter> set B) = 0 \<longleftrightarrow> set A \<inter> set B = {}"
    by simp
  then have "card (set A \<inter> set B) = 0 \<longleftrightarrow> \<not> (\<exists>x. has A x \<and> has B x)"
    by (auto simp: has_def)
  with u ab sum show ?thesis
    by auto
qed

theorem union_size_witness:
  "distinct [Num 1, Num 2] \<and> distinct [Num 2, Num 3] \<and> distinct [Num 7]
   \<and> size_s (union_s [Num 1, Num 2] [Num 2, Num 3]) < size_s [Num 1, Num 2] + size_s [Num 2, Num 3]
   \<and> (\<exists>x. has [Num 1, Num 2] x \<and> has [Num 2, Num 3] x)
   \<and> size_s (union_s [Num 1, Num 2] [Num 7]) = size_s [Num 1, Num 2] + size_s [Num 7]"
proof -
  have d: "distinct [Num 1, Num 2]" "distinct [Num 2, Num 3]" "distinct [Num 7]"
    by simp_all
  have shared: "has [Num 1, Num 2] (Num 2) \<and> has [Num 2, Num 3] (Num 2)"
    by (simp add: has_def)
  have apart: "\<not> (\<exists>x. has [Num 1, Num 2] x \<and> has [Num 7] x)"
    by (simp add: has_def)
  show ?thesis
    using d shared apart union_size [OF d(1) d(2)] union_size [OF d(1) d(3)]
    by (metis le_neq_implies_less)
qed

text \<open>
  C7. \<open>S.every(p)\<close> is true exactly when \<open>p\<close> is truthy on every element of \<open>S\<close>, so it is
  true on the empty set; \<open>S.some(p)\<close> is true exactly when \<open>p\<close> is truthy on at least one
  element of \<open>S\<close>, so it is false on the empty set.
\<close>

theorem every_some_truthy:
  "every S p t = (\<forall>x. has S x \<longrightarrow> truthy (p t x x S))
   \<and> some S p t = (\<exists>x. has S x \<and> truthy (p t x x S))
   \<and> every [] p t
   \<and> \<not> some [] p t"
  by (simp add: every_def some_def bind_def every_loop_iff some_loop_iff has_def Ball_def Bex_def)

theorem every_some_truthy_witness:
  "every [Num 1, Str ''a''] (\<lambda>t x y s. x) Undefined
   \<and> \<not> every [Num 1, Num 0] (\<lambda>t x y s. x) Undefined
   \<and> some [Num 1, Num 0] (\<lambda>t x y s. x) Undefined
   \<and> \<not> some [Num 0, Null] (\<lambda>t x y s. x) Undefined"
proof -
  have a: "\<forall>x. has [Num 1, Str ''a''] x \<longrightarrow> truthy x"
    by (simp add: has_def)
  have b: "has [Num 1, Num 0] (Num 0) \<and> \<not> truthy (Num 0)"
       "has [Num 1, Num 0] (Num 1) \<and> truthy (Num 1)"
    by (simp_all add: has_def)
  have c: "\<not> (\<exists>x. has [Num 0, Null] x \<and> truthy x)"
    by (auto simp: has_def)
  show ?thesis
    using a b c
      every_some_truthy [of "[Num 1, Str ''a'']" "\<lambda>t x y s. x" Undefined]
      every_some_truthy [of "[Num 1, Num 0]" "\<lambda>t x y s. x" Undefined]
      every_some_truthy [of "[Num 0, Null]" "\<lambda>t x y s. x" Undefined]
    by blast
qed

text \<open>
  C8. \<open>S.update(I)\<close> returns the reference of \<open>S\<close> itself and creates no object. Afterwards
  \<open>S\<close> has exactly the elements it had together with the items of \<open>I\<close>, each once. The
  iterable \<open>I\<close> is the finite sequence of the items it yields. In particular
  \<open>new SuperSet([1,2]).update([2,3])\<close> is the receiver and equals \<open>new SuperSet([1,2,3])\<close>.
\<close>

theorem update_in_place:
  assumes "this < length h" and "distinct (h ! this)"
  shows "fst (update_obj h this I) = this
       \<and> length (snd (update_obj h this I)) = length h
       \<and> (\<forall>x. has (snd (update_obj h this I) ! this) x = (has (h ! this) x \<or> x \<in> set I))
       \<and> distinct (snd (update_obj h this I) ! this)
       \<and> (case new_SuperSet [] [Num 1, Num 2] of (a, h1) \<Rightarrow>
            case update_obj h1 a [Num 2, Num 3] of (r, h2) \<Rightarrow>
              case new_SuperSet h2 [Num 1, Num 2, Num 3] of (b, h3) \<Rightarrow>
                r = a \<and> equals_obj h3 r b)"
proof -
  have st: "snd (update_obj h this I) ! this = add_each (h ! this) I"
    using assms(1) by (simp add: update_obj_def update_def)
  have ex: "case new_SuperSet [] [Num 1, Num 2] of (a, h1) \<Rightarrow>
            case update_obj h1 a [Num 2, Num 3] of (r, h2) \<Rightarrow>
              case new_SuperSet h2 [Num 1, Num 2, Num 3] of (b, h3) \<Rightarrow>
                r = a \<and> equals_obj h3 r b"
    by (simp add: new_SuperSet_def new_object_def SuperSet_def update_obj_def update_def
        equals_obj_def equals_def isSubsetOf_def every_def bind_def has_method_def
        add_def has_def size_s_def)
  show ?thesis
    using assms(2) ex
    by (simp add: st set_add_each distinct_add_each has_def)
      (simp add: update_obj_def)
qed

theorem update_in_place_witness:
  "(0::nat) < length [ [Num 1, Num 2] ] \<and> distinct ([ [Num 1, Num 2] ] ! 0)
   \<and> update_obj [ [Num 1, Num 2] ] 0 [Num 2, Num 3] = (0, [ [Num 1, Num 2, Num 3] ])
   \<and> (\<forall>x. has (snd (update_obj [ [Num 1, Num 2] ] 0 [Num 2, Num 3]) ! 0) x
          = (has ([ [Num 1, Num 2] ] ! 0) x \<or> x \<in> set [Num 2, Num 3]))"
proof -
  have a: "(0::nat) < length [ [Num 1, Num 2] ]" "distinct ([ [Num 1, Num 2] ] ! 0)"
    by simp_all
  have b: "update_obj [ [Num 1, Num 2] ] 0 [Num 2, Num 3] = (0, [ [Num 1, Num 2, Num 3] ])"
    by (simp add: update_obj_def update_def add_def has_def)
  have c: "\<forall>x. has (snd (update_obj [ [Num 1, Num 2] ] 0 [Num 2, Num 3]) ! 0) x
          = (has ([ [Num 1, Num 2] ] ! 0) x \<or> x \<in> set [Num 2, Num 3])"
    using update_in_place [OF a, of "[Num 2, Num 3]"] by blast
  show ?thesis
    using a b c by blast
qed

text \<open>
  C9. Called on live references, \<open>map\<close>, \<open>filter\<close>, \<open>union\<close>, \<open>subtract\<close>, \<open>xor\<close> and
  \<open>intersect\<close> return a reference to a new object, different from the receiver and from
  the argument, and leave the contents of the receiver and of the argument (and of every
  other existing object) as they were. \<open>update\<close> is the method that changes its receiver:
  on \<open>{1}\<close> with the item \<open>2\<close> it leaves the receiver as \<open>{1, 2}\<close>.
\<close>

theorem derived_sets_are_new:
  assumes "this < length h" and "other < length h"
  shows "returns_new h [this] (map_obj h this f t)
       \<and> returns_new h [this] (filter_obj h this f t)
       \<and> returns_new h [this, other] (union_obj h this other)
       \<and> returns_new h [this, other] (subtract_obj h this other)
       \<and> returns_new h [this, other] (xor_obj h this other)
       \<and> returns_new h [this, other] (intersect_obj h this other)
       \<and> update_obj [ [Num 1] ] 0 [Num 2] = (0, [ [Num 1, Num 2] ])"
proof -
  have "update_obj [ [Num 1] ] 0 [Num 2] = (0, [ [Num 1, Num 2] ])"
    by (simp add: update_obj_def update_def add_def has_def)
  with assms show ?thesis
    by (simp add: map_obj_def filter_obj_def union_obj_def subtract_obj_def xor_obj_def
        intersect_obj_def new_object_returns_new)
qed

theorem derived_sets_are_new_witness:
  "(0::nat) < length [ [Num 1, Num 2], [Num 2] ] \<and> (1::nat) < length [ [Num 1, Num 2], [Num 2] ]
   \<and> subtract_obj [ [Num 1, Num 2], [Num 2] ] 0 1 = (2, [ [Num 1, Num 2], [Num 2], [Num 1] ])
   \<and> returns_new [ [Num 1, Num 2], [Num 2] ] [0, 1] (2, [ [Num 1, Num 2], [Num 2], [Num 1] ])"
proof -
  have a: "(0::nat) < length [ [Num 1, Num 2], [Num 2] ]" "(1::nat) < length [ [Num 1, Num 2], [Num 2] ]"
    by simp_all
  have b: "subtract_obj [ [Num 1, Num 2], [Num 2] ] 0 1 = (2, [ [Num 1, Num 2], [Num 2], [Num 1] ])"
    by (simp add: subtract_obj_def subtract_def subtractGen_def SuperSet_def new_object_def
        add_def has_def)
  show ?thesis
    using a b derived_sets_are_new [OF a, where f = "\<lambda>t x y s. x" and t = Undefined]
    by simp
qed

text \<open>
  C10. For sets \<open>A\<close> and \<open>B\<close>, \<open>A.union(B).equals(B.union(A))\<close> is true, although the two
  results may list their elements in different orders, as for \<open>{1}\<close> and \<open>{2}\<close>.
\<close>

theorem union_commutes:
  "equals (union_s A B) (union_s B A)
   \<and> union_s [Num 1] [Num 2] \<noteq> union_s [Num 2] [Num 1]"
proof
  have "distinct (union_s A B)" "distinct (union_s B A)"
    by (simp_all add: union_s_def distinct_SuperSet)
  then show "equals (union_s A B) (union_s B A)"
    by (simp add: equals_iff set_union_s Un_commute)
  show "union_s [Num 1] [Num 2] \<noteq> union_s [Num 2] [Num 1]"
    by (simp add: union_s_def unionGen_def SuperSet_def add_def has_def)
qed

end
